theory Spec2Isabelle
  imports Complex_Main
begin

section \<open>Python values as the spreadsheet reader delivers them\<close>

text \<open>
  A Python \<open>str\<close> is a sequence of Unicode code points; a code point is a natural
  number, so the currency glyph U+20B9 is a single element.
\<close>

type_synonym pystr = "nat list"

definition ustr :: "string \<Rightarrow> pystr" where
  "ustr s = map of_char s"

datatype py_error = ValueError | TypeError | OverflowError | KeyError

text \<open>
  The value of a cell: \<open>None\<close>, a \<open>bool\<close>, an \<open>int\<close>, a \<open>float\<close>, a \<open>str\<close>, or a
  date/time object, which carries the text \<open>str()\<close> gives for it.
\<close>

datatype 'f cell = CNone | CBool bool | CInt int | CFloat 'f | CStr pystr | CDate pystr

text \<open>
  What the program takes from the Python runtime and is not written in its source: the
  Unicode tables beyond ASCII and the arithmetic of binary floating point.
  \<^item> \<open>u_lower c\<close>: the lower-case form of a code point \<open>c \<ge> 128\<close>;
    \<open>u_space c\<close>: whether it is white space; \<open>u_digit c\<close>: its value when it is a decimal digit.
  \<^item> \<open>f_of_dec neg q\<close>: the float nearest to the magnitude \<open>q\<close>, negative when \<open>neg\<close>
    (so that a zero keeps its sign); infinite beyond the range.
  \<^item> \<open>f_mul\<close>: the product of two floats; \<open>f_round\<close>: the built-in \<open>round(x)\<close>, which
    raises on an infinity or a NaN; \<open>f_int\<close>: \<open>int(x)\<close>, likewise; \<open>f_bool\<close>: whether
    \<open>x\<close> counts as true; \<open>f_str\<close>: \<open>str(x)\<close>.
\<close>

record 'f pyrt =
  u_lower :: "nat \<Rightarrow> pystr"
  u_space :: "nat \<Rightarrow> bool"
  u_digit :: "nat \<Rightarrow> nat option"
  f_of_dec :: "bool \<Rightarrow> rat \<Rightarrow> 'f"
  f_mul :: "'f \<Rightarrow> 'f \<Rightarrow> 'f"
  f_round :: "'f \<Rightarrow> py_error + int"
  f_int :: "'f \<Rightarrow> py_error + int"
  f_bool :: "'f \<Rightarrow> bool"
  f_str :: "'f \<Rightarrow> pystr"

subsection \<open>\<open>str(value)\<close>\<close>

fun str_of_nat :: "nat \<Rightarrow> pystr" where
  "str_of_nat n = (if n < 10 then [48 + n] else str_of_nat (n div 10) @ [48 + n mod 10])"

declare str_of_nat.simps [simp del]

definition str_of_int :: "int \<Rightarrow> pystr" where
  "str_of_int i = (if i < 0 then 45 # str_of_nat (nat (- i)) else str_of_nat (nat i))"

fun py_str :: "'f pyrt \<Rightarrow> 'f cell \<Rightarrow> pystr" where
  "py_str R CNone = ustr ''None''"
| "py_str R (CBool b) = (if b then ustr ''True'' else ustr ''False'')"
| "py_str R (CInt i) = str_of_int i"
| "py_str R (CFloat x) = f_str R x"
| "py_str R (CStr s) = s"
| "py_str R (CDate s) = s"

subsection \<open>\<open>str.lower()\<close>\<close>

definition lower_cp :: "'f pyrt \<Rightarrow> nat \<Rightarrow> pystr" where
  "lower_cp R c =
     (if 65 \<le> c \<and> c \<le> 90 then [c + 32]
      else if c < 128 then [c]
      else u_lower R c)"

definition py_lower :: "'f pyrt \<Rightarrow> pystr \<Rightarrow> pystr" where
  "py_lower R s = concat (map (lower_cp R) s)"

section \<open>normalize\<close>

definition is_az :: "nat \<Rightarrow> bool" where
  "is_az c = (97 \<le> c \<and> c \<le> 122)"

text \<open>\<open>re.sub(r"[^a-z]", "", text)\<close>: every character the class matches is replaced by nothing.\<close>

fun re_sub_non_az :: "pystr \<Rightarrow> pystr" where
  "re_sub_non_az [] = []"
| "re_sub_non_az (c # cs) = (if is_az c then c # re_sub_non_az cs else re_sub_non_az cs)"

definition normalize_key :: "'f pyrt \<Rightarrow> 'f cell \<Rightarrow> pystr" where
  "normalize_key R text =
     (if text = CNone then []
      else re_sub_non_az (py_lower R (py_str R text)))"

section \<open>to\_number\<close>

datatype 'f num = NInt int | NFloat 'f

definition is_space :: "'f pyrt \<Rightarrow> nat \<Rightarrow> bool" where
  "is_space R c =
     (if c < 128 then (9 \<le> c \<and> c \<le> 13) \<or> (28 \<le> c \<and> c \<le> 32) else u_space R c)"

definition py_strip :: "'f pyrt \<Rightarrow> pystr \<Rightarrow> pystr" where
  "py_strip R s = rev (dropWhile (is_space R) (rev (dropWhile (is_space R) s)))"

text \<open>\<open>\d\<close> of a \<open>str\<close> pattern matches every Unicode decimal digit.\<close>

definition digit_val :: "'f pyrt \<Rightarrow> nat \<Rightarrow> nat option" where
  "digit_val R c =
     (if c < 128 then (if 48 \<le> c \<and> c \<le> 57 then Some (c - 48) else None) else u_digit R c)"

definition is_digit :: "'f pyrt \<Rightarrow> nat \<Rightarrow> bool" where
  "is_digit R c = (digit_val R c \<noteq> None)"

text \<open>
  \<open>\d+(\.\d+)?\<close> at the head of a text that starts with a digit: the longest run of
  digits, then a dot with the longest run of digits after it when there is at least one.
\<close>

definition number_body :: "'f pyrt \<Rightarrow> pystr \<Rightarrow> pystr" where
  "number_body R t =
     (let ds = takeWhile (is_digit R) t; r = dropWhile (is_digit R) t
      in case r of
           [] \<Rightarrow> ds
         | c # r' \<Rightarrow>
             (let fs = takeWhile (is_digit R) r'
              in if c = 46 \<and> fs \<noteq> [] then ds @ 46 # fs else ds))"

text \<open>A match of \<open>-?\d+(\.\d+)?\<close> that starts at the head of the text, if there is one.\<close>

definition match_at :: "'f pyrt \<Rightarrow> pystr \<Rightarrow> pystr option" where
  "match_at R t =
     (case t of
        [] \<Rightarrow> None
      | c # cs \<Rightarrow>
          if c = 45 \<and> cs \<noteq> [] \<and> is_digit R (hd cs) then Some (45 # number_body R cs)
          else if is_digit R c then Some (number_body R t)
          else None)"

text \<open>\<open>re.search\<close>: the match at the leftmost position that has one.\<close>

fun re_search :: "'f pyrt \<Rightarrow> pystr \<Rightarrow> pystr option" where
  "re_search R [] = None"
| "re_search R (c # cs) =
     (case match_at R (c # cs) of Some m \<Rightarrow> Some m | None \<Rightarrow> re_search R cs)"

text \<open>\<open>float(s)\<close> for a text \<open>s\<close> that the pattern matched.\<close>

fun digits_val :: "'f pyrt \<Rightarrow> nat \<Rightarrow> pystr \<Rightarrow> nat" where
  "digits_val R acc [] = acc"
| "digits_val R acc (c # cs) =
     digits_val R (10 * acc + (case digit_val R c of Some v \<Rightarrow> v | None \<Rightarrow> 0)) cs"

definition dec_magnitude :: "'f pyrt \<Rightarrow> pystr \<Rightarrow> rat" where
  "dec_magnitude R s =
     (let ds = takeWhile (is_digit R) s; fs = drop (Suc (length ds)) s
      in of_nat (digits_val R 0 ds) + of_nat (digits_val R 0 fs) / 10 ^ length fs)"

definition float_of_match :: "'f pyrt \<Rightarrow> pystr \<Rightarrow> 'f" where
  "float_of_match R m =
     (case m of
        [] \<Rightarrow> f_of_dec R False 0
      | c # cs \<Rightarrow>
          if c = 45 then f_of_dec R True (dec_magnitude R cs)
          else f_of_dec R False (dec_magnitude R m))"

text \<open>
  \<open>float(i)\<close> for an \<open>int\<close>: the nearest double, and \<open>OverflowError\<close> when that is beyond
  the largest one (from \<open>2^1024 - 2^970\<close> on, the midpoint that rounds up to \<open>2^1024\<close>).
\<close>

definition float_of_int :: "'f pyrt \<Rightarrow> int \<Rightarrow> py_error + 'f" where
  "float_of_int R i =
     (if \<bar>i\<bar> < 2 ^ 1024 - 2 ^ 970 then Inr (f_of_dec R (i < 0) (of_int \<bar>i\<bar>))
      else Inl OverflowError)"

text \<open>\<open>str(value).replace(",", "").replace(rupee, "").strip()\<close>, the rupee sign being U+20B9.\<close>

definition clean_text :: "'f pyrt \<Rightarrow> 'f cell \<Rightarrow> pystr" where
  "clean_text R v =
     py_strip R (filter (\<lambda>c. c \<noteq> 8377) (filter (\<lambda>c. c \<noteq> 44) (py_str R v)))"

definition to_number :: "'f pyrt \<Rightarrow> 'f cell \<Rightarrow> py_error + 'f num" where
  "to_number R v =
     (case v of
        CNone \<Rightarrow> Inr (NInt 0)
      | CBool b \<Rightarrow> map_sum id NFloat (float_of_int R (if b then 1 else 0))
      | CInt i \<Rightarrow> map_sum id NFloat (float_of_int R i)
      | CFloat x \<Rightarrow> Inr (NFloat x)
      | _ \<Rightarrow>
          (case re_search R (clean_text R v) of
             Some m \<Rightarrow> Inr (NFloat (float_of_match R m))
           | None \<Rightarrow> Inr (NInt 0)))"


section \<open>Truth values and \<open>int()\<close>\<close>

text \<open>What \<open>if key:\<close> and \<open>not target_row\<close> test.\<close>

fun truthy :: "'f pyrt \<Rightarrow> 'f cell \<Rightarrow> bool" where
  "truthy R CNone = False"
| "truthy R (CBool b) = b"
| "truthy R (CInt i) = (i \<noteq> 0)"
| "truthy R (CFloat x) = f_bool R x"
| "truthy R (CStr s) = (s \<noteq> [])"
| "truthy R (CDate s) = True"

text \<open>
  \<open>int(s)\<close> for a text: white space around it is dropped, a sign may lead, and the rest is
  decimal digits, where a single underscore may stand between two digits.
\<close>

fun int_digits :: "'f pyrt \<Rightarrow> nat \<Rightarrow> pystr \<Rightarrow> nat option" where
  "int_digits R acc [] = Some acc"
| "int_digits R acc [c] =
     (case digit_val R c of Some v \<Rightarrow> Some (10 * acc + v) | None \<Rightarrow> None)"
| "int_digits R acc (c # d # cs) =
     (if c = 95 then
        (case digit_val R d of Some v \<Rightarrow> int_digits R (10 * acc + v) cs | None \<Rightarrow> None)
      else
        (case digit_val R c of Some v \<Rightarrow> int_digits R (10 * acc + v) (d # cs) | None \<Rightarrow> None))"

definition int_unsigned :: "'f pyrt \<Rightarrow> pystr \<Rightarrow> nat option" where
  "int_unsigned R s =
     (case s of
        [] \<Rightarrow> None
      | c # cs \<Rightarrow> (case digit_val R c of Some v \<Rightarrow> int_digits R v cs | None \<Rightarrow> None))"

definition int_of_str :: "'f pyrt \<Rightarrow> pystr \<Rightarrow> py_error + int" where
  "int_of_str R s =
     (let t = py_strip R s;
          neg = (t \<noteq> [] \<and> hd t = 45);
          body = (if t \<noteq> [] \<and> (hd t = 45 \<or> hd t = 43) then tl t else t)
      in case int_unsigned R body of
           None \<Rightarrow> Inl ValueError
         | Some n \<Rightarrow> Inr (if neg then - int n else int n))"

fun py_int :: "'f pyrt \<Rightarrow> 'f cell \<Rightarrow> py_error + int" where
  "py_int R CNone = Inl TypeError"
| "py_int R (CBool b) = Inr (if b then 1 else 0)"
| "py_int R (CInt i) = Inr i"
| "py_int R (CFloat x) = f_int R x"
| "py_int R (CStr s) = int_of_str R s"
| "py_int R (CDate s) = Inl TypeError"

section \<open>The target sheet and write\_to\_cell\<close>

text \<open>
  A cell is addressed by column and row, both from 1. A sheet has its cells, its last row
  and its merged ranges, in the order the loop of \<open>write_to_cell\<close> goes through them.
\<close>

type_synonym coord = "nat \<times> nat"

record cell_range =
  min_col :: nat
  min_row :: nat
  max_col :: nat
  max_row :: nat

record 'f sheet =
  cells :: "coord \<Rightarrow> 'f cell"
  sheet_max_row :: nat
  merged :: "cell_range list"

text \<open>
  An address as the loop builds it, \<open>f"G{int(target_row)}"\<close>: a column and the integer
  printed after it. The spreadsheet library takes it for a coordinate when the integer is
  a row number, 1 or more, and raises \<open>ValueError\<close> otherwise. Some versions of the
  library also refuse a row beyond 1048576, the last row of the file format; no property
  below promises a write beyond that row.
\<close>

type_synonym address = "nat \<times> int"

definition coord_of_address :: "address \<Rightarrow> py_error + coord" where
  "coord_of_address a = (if 1 \<le> snd a then Inr (fst a, nat (snd a)) else Inl ValueError)"

definition in_range :: "coord \<Rightarrow> cell_range \<Rightarrow> bool" where
  "in_range c r =
     (min_col r \<le> fst c \<and> fst c \<le> max_col r \<and> min_row r \<le> snd c \<and> snd c \<le> max_row r)"

definition anchor :: "cell_range \<Rightarrow> coord" where
  "anchor r = (min_col r, min_row r)"

text \<open>Assigning \<open>.value\<close> of a cell; a cell that did not exist is created, which may move the last row.\<close>

definition set_value :: "'f sheet \<Rightarrow> coord \<Rightarrow> 'f cell \<Rightarrow> 'f sheet" where
  "set_value ws c v =
     ws\<lparr>cells := (cells ws)(c := v), sheet_max_row := max (sheet_max_row ws) (snd c)\<rparr>"

text \<open>The loop over the merged ranges, with its early return.\<close>

fun write_ranges :: "cell_range list \<Rightarrow> 'f sheet \<Rightarrow> coord \<Rightarrow> 'f cell \<Rightarrow> 'f sheet" where
  "write_ranges [] ws c v = set_value ws c v"
| "write_ranges (r # rs) ws c v =
     (if in_range c r then set_value ws (anchor r) v else write_ranges rs ws c v)"

definition write_to_cell :: "'f sheet \<Rightarrow> address \<Rightarrow> 'f cell \<Rightarrow> py_error + 'f sheet" where
  "write_to_cell ws cell_address v =
     (case coord_of_address cell_address of
        Inl e \<Rightarrow> Inl e
      | Inr c \<Rightarrow> Inr (write_ranges (merged ws) ws c v))"

section \<open>The run\<close>

record 'f source_record =
  raw_key :: pystr
  norm_key :: pystr
  current :: "'f num"
  previous :: "'f num"

text \<open>Sequencing of steps that may raise.\<close>

definition bind_err :: "py_error + 'a \<Rightarrow> ('a \<Rightarrow> py_error + 'b) \<Rightarrow> py_error + 'b" where
  "bind_err x f = (case x of Inl e \<Rightarrow> Inl e | Inr a \<Rightarrow> f a)"

subsection \<open>Loading the source rows\<close>

definition load_row :: "'f pyrt \<Rightarrow> 'f sheet \<Rightarrow> nat \<Rightarrow> py_error + 'f source_record list" where
  "load_row R source_ws row =
     (let key = cells source_ws (2, row);
          curr = cells source_ws (4, row);
          prev = cells source_ws (6, row)
      in if truthy R key then
           bind_err (to_number R curr) (\<lambda>c.
           bind_err (to_number R prev) (\<lambda>p.
             Inr [\<lparr>raw_key = py_str R key, norm_key = normalize_key R key,
                   current = c, previous = p\<rparr>]))
         else Inr [])"

fun load_rows ::
  "'f pyrt \<Rightarrow> 'f sheet \<Rightarrow> nat list \<Rightarrow> 'f source_record list \<Rightarrow> py_error + 'f source_record list"
where
  "load_rows R source_ws [] source_data = Inr source_data"
| "load_rows R source_ws (row # rows) source_data =
     bind_err (load_row R source_ws row) (\<lambda>recs.
       load_rows R source_ws rows (source_data @ recs))"

definition load_source :: "'f pyrt \<Rightarrow> 'f sheet \<Rightarrow> py_error + 'f source_record list" where
  "load_source R source_ws = load_rows R source_ws [2 ..< sheet_max_row source_ws + 1] []"

subsection \<open>Matching\<close>

text \<open>\<open>a in b\<close> for two texts: \<open>a\<close> stands somewhere in \<open>b\<close>.\<close>

fun is_prefix :: "pystr \<Rightarrow> pystr \<Rightarrow> bool" where
  "is_prefix [] b = True"
| "is_prefix (x # a) [] = False"
| "is_prefix (x # a) (y # b) = (x = y \<and> is_prefix a b)"

fun py_in :: "pystr \<Rightarrow> pystr \<Rightarrow> bool" where
  "py_in a [] = (a = [])"
| "py_in a (y # b) = (is_prefix a (y # b) \<or> py_in a b)"

definition key_matches :: "pystr \<Rightarrow> 'f source_record \<Rightarrow> bool" where
  "key_matches norm_map_key src =
     (py_in norm_map_key (norm_key src) \<or> py_in (norm_key src) norm_map_key)"

text \<open>\<open>next((src for src in source_data if ...), None)\<close>\<close>

fun find_match :: "pystr \<Rightarrow> 'f source_record list \<Rightarrow> 'f source_record option" where
  "find_match norm_map_key [] = None"
| "find_match norm_map_key (src # source_data) =
     (if key_matches norm_map_key src then Some src else find_match norm_map_key source_data)"

subsection \<open>The mapping loop\<close>

record 'f etl_state =
  target_ws :: "'f sheet"
  filled :: nat
  missing_keys :: "'f cell list"

text \<open>\<open>round(match[...] * factor)\<close>; an \<open>int\<close> is made a float before the product.\<close>

definition scale_round :: "'f pyrt \<Rightarrow> 'f num \<Rightarrow> 'f \<Rightarrow> py_error + int" where
  "scale_round R v factor =
     (case v of
        NInt i \<Rightarrow> bind_err (float_of_int R i) (\<lambda>x. f_round R (f_mul R x factor))
      | NFloat x \<Rightarrow> f_round R (f_mul R x factor))"

definition process_row ::
  "'f pyrt \<Rightarrow> 'f \<Rightarrow> 'f source_record list \<Rightarrow> 'f sheet \<Rightarrow> nat \<Rightarrow> 'f etl_state \<Rightarrow> py_error + 'f etl_state"
where
  "process_row R factor source_data mapping_ws row st =
     (let map_key = cells mapping_ws (1, row);
          target_row = cells mapping_ws (2, row)
      in if \<not> truthy R map_key \<or> \<not> truthy R target_row then Inr st
         else
           (case find_match (normalize_key R map_key) source_data of
              None \<Rightarrow> Inr (st\<lparr>missing_keys := missing_keys st @ [map_key]\<rparr>)
            | Some m \<Rightarrow>
                bind_err (py_int R target_row) (\<lambda>n.
                bind_err (scale_round R (current m) factor) (\<lambda>curr_value.
                bind_err (scale_round R (previous m) factor) (\<lambda>prev_value.
                bind_err (write_to_cell (target_ws st) (7, n) (CInt curr_value)) (\<lambda>ws1.
                bind_err (write_to_cell ws1 (10, n) (CInt prev_value)) (\<lambda>ws2.
                  Inr (st\<lparr>target_ws := ws2, filled := filled st + 1\<rparr>))))))))"

fun mapping_loop ::
  "'f pyrt \<Rightarrow> 'f \<Rightarrow> 'f source_record list \<Rightarrow> 'f sheet \<Rightarrow> nat list \<Rightarrow> 'f etl_state \<Rightarrow> py_error + 'f etl_state"
where
  "mapping_loop R factor source_data mapping_ws [] st = Inr st"
| "mapping_loop R factor source_data mapping_ws (row # rows) st =
     bind_err (process_row R factor source_data mapping_ws row st)
       (mapping_loop R factor source_data mapping_ws rows)"

subsection \<open>The whole run\<close>

type_synonym 'f workbook = "pystr \<rightharpoonup> 'f sheet"

definition get_sheet :: "'f workbook \<Rightarrow> pystr \<Rightarrow> py_error + 'f sheet" where
  "get_sheet wb name = (case wb name of None \<Rightarrow> Inl KeyError | Some ws \<Rightarrow> Inr ws)"

text \<open>\<open>', '.join(missing_keys)\<close>, which takes texts only.\<close>

fun join_keys :: "'f cell list \<Rightarrow> py_error + pystr" where
  "join_keys [] = Inr []"
| "join_keys [CStr s] = Inr s"
| "join_keys (CStr s # k # ks) = bind_err (join_keys (k # ks)) (\<lambda>t. Inr (s @ 44 # 32 # t))"
| "join_keys (_ # ks) = Inl TypeError"

record 'f etl_result =
  out_wb :: "'f workbook"
  loaded :: nat
  filled_count :: nat
  missing :: "'f cell list"
  warning :: "pystr option"

definition run_etl ::
  "'f pyrt \<Rightarrow> 'f workbook \<Rightarrow> 'f workbook \<Rightarrow> 'f workbook \<Rightarrow> pystr \<Rightarrow> pystr \<Rightarrow> 'f
     \<Rightarrow> py_error + 'f etl_result"
where
  "run_etl R source_wb mapping_wb target_wb source_sheet target_sheet factor =
     bind_err (get_sheet source_wb source_sheet) (\<lambda>source_ws.
     bind_err (get_sheet mapping_wb (ustr ''Sheet1'')) (\<lambda>mapping_ws.
     bind_err (get_sheet target_wb target_sheet) (\<lambda>tws.
     bind_err (load_source R source_ws) (\<lambda>source_data.
     bind_err (mapping_loop R factor source_data mapping_ws
                 [2 ..< sheet_max_row mapping_ws + 1]
                 \<lparr>target_ws = tws, filled = 0, missing_keys = []\<rparr>) (\<lambda>st.
     bind_err (if missing_keys st = [] then Inr None
               else map_sum id Some (join_keys (missing_keys st))) (\<lambda>w.
       Inr \<lparr>out_wb = target_wb(target_sheet \<mapsto> target_ws st),
            loaded = length source_data,
            filled_count = filled st,
            missing = missing_keys st,
            warning = w\<rparr>))))))"

section \<open>A runtime for concrete runs\<close>

text \<open>
  Floats as rationals with exact arithmetic and no code point beyond ASCII in the tables:
  enough to run the program on small inputs.
\<close>

definition round_half_even :: "rat \<Rightarrow> int" where
  "round_half_even q =
     (let f = \<lfloor>q\<rfloor>; d = q - of_int f
      in if d < 1 / 2 then f else if 1 / 2 < d then f + 1 else if even f then f else f + 1)"

definition exact_rt :: "rat pyrt" where
  "exact_rt =
     \<lparr>u_lower = (\<lambda>c. [c]), u_space = (\<lambda>c. False), u_digit = (\<lambda>c. None),
      f_of_dec = (\<lambda>neg q. if neg then - q else q),
      f_mul = (\<lambda>x y. x * y),
      f_round = (\<lambda>x. Inr (round_half_even x)),
      f_int = (\<lambda>x. Inr (if x < 0 then - \<lfloor>- x\<rfloor> else \<lfloor>x\<rfloor>)),
      f_bool = (\<lambda>x. x \<noteq> 0),
      f_str = (\<lambda>x. [])\<rparr>"

section \<open>Notions the properties are stated with\<close>

text \<open>The cell a write to \<open>c\<close> lands on: the anchor of the first merged range that holds \<open>c\<close>, or \<open>c\<close>.\<close>

fun landing :: "cell_range list \<Rightarrow> coord \<Rightarrow> coord" where
  "landing [] c = c"
| "landing (r # rs) c = (if in_range c r then anchor r else landing rs c)"



text \<open>A mapping row with both columns present, and the source record its key selects.\<close>

definition row_present :: "'f pyrt \<Rightarrow> 'f sheet \<Rightarrow> nat \<Rightarrow> bool" where
  "row_present R mapping_ws row =
     (truthy R (cells mapping_ws (1, row)) \<and> truthy R (cells mapping_ws (2, row)))"

definition row_match ::
  "'f pyrt \<Rightarrow> 'f source_record list \<Rightarrow> 'f sheet \<Rightarrow> nat \<Rightarrow> 'f source_record option"
where
  "row_match R source_data mapping_ws row =
     find_match (normalize_key R (cells mapping_ws (1, row))) source_data"

definition matched_rows ::
  "'f pyrt \<Rightarrow> 'f source_record list \<Rightarrow> 'f sheet \<Rightarrow> nat list \<Rightarrow> nat list"
where
  "matched_rows R source_data mapping_ws rows =
     filter (\<lambda>row. row_present R mapping_ws row
                  \<and> row_match R source_data mapping_ws row \<noteq> None) rows"

definition unmatched_rows ::
  "'f pyrt \<Rightarrow> 'f source_record list \<Rightarrow> 'f sheet \<Rightarrow> nat list \<Rightarrow> nat list"
where
  "unmatched_rows R source_data mapping_ws rows =
     filter (\<lambda>row. row_present R mapping_ws row
                  \<and> row_match R source_data mapping_ws row = None) rows"

text \<open>The cells the matched rows write to: where G and J of each target row land.\<close>

definition row_targets :: "'f pyrt \<Rightarrow> cell_range list \<Rightarrow> 'f sheet \<Rightarrow> nat \<Rightarrow> coord list" where
  "row_targets R mg mapping_ws row =
     (case py_int R (cells mapping_ws (2, row)) of
        Inl e \<Rightarrow> []
      | Inr n \<Rightarrow> [landing mg (7, nat n), landing mg (10, nat n)])"

definition target_cells ::
  "'f pyrt \<Rightarrow> 'f source_record list \<Rightarrow> cell_range list \<Rightarrow> 'f sheet \<Rightarrow> nat list \<Rightarrow> coord list"
where
  "target_cells R source_data mg mapping_ws rows =
     concat (map (row_targets R mg mapping_ws) (matched_rows R source_data mapping_ws rows))"


subsection \<open>Sheets for concrete runs\<close>

definition mk_sheet :: "nat \<Rightarrow> (coord \<times> 'f cell) list \<Rightarrow> cell_range list \<Rightarrow> 'f sheet" where
  "mk_sheet n kvs mg =
     \<lparr>cells = (\<lambda>c. case map_of kvs c of None \<Rightarrow> CNone | Some v \<Rightarrow> v),
      sheet_max_row = n, merged = mg\<rparr>"

definition one_sheet :: "pystr \<Rightarrow> 'f sheet \<Rightarrow> 'f workbook" where
  "one_sheet name ws = [name \<mapsto> ws]"

text \<open>A source sheet with the row \<open>Acme Corp, 100, 200\<close>.\<close>

definition acme_source :: "rat sheet" where
  "acme_source =
     mk_sheet 2 [((2, 2), CStr (ustr ''Acme Corp'')), ((4, 2), CInt 100), ((6, 2), CInt 200)] []"

text \<open>An empty target sheet, and one where G5 to J5 are merged.\<close>

definition empty_target :: "rat sheet" where
  "empty_target = mk_sheet 1 [] []"

definition merged_target :: "rat sheet" where
  "merged_target = mk_sheet 1 [] [\<lparr>min_col = 7, min_row = 5, max_col = 10, max_row = 5\<rparr>]"

text \<open>Mapping sheets (named \<open>Sheet1\<close> in their workbooks), each with one row.\<close>

definition acme_mapping :: "rat sheet" where
  "acme_mapping = mk_sheet 2 [((1, 2), CStr (ustr ''ACME CORP.'')), ((2, 2), CInt 5)] []"

definition globex_mapping :: "rat sheet" where
  "globex_mapping = mk_sheet 2 [((1, 2), CStr (ustr ''Globex'')), ((2, 2), CInt 5)] []"

definition digits_mapping :: "rat sheet" where
  "digits_mapping = mk_sheet 2 [((1, 2), CInt 2024), ((2, 2), CInt 5)] []"

definition text_row_mapping :: "rat sheet" where
  "text_row_mapping =
     mk_sheet 2 [((1, 2), CStr (ustr ''Acme'')), ((2, 2), CStr (ustr ''abc''))] []"

text \<open>A source sheet whose only key is the number 0.\<close>

definition zero_key_source :: "rat sheet" where
  "zero_key_source = mk_sheet 2 [((2, 2), CInt 0), ((4, 2), CInt 100), ((6, 2), CInt 200)] []"

text \<open>The records loaded from \<open>acme_source\<close>, and a run on workbooks of one sheet each.\<close>

definition acme_data :: "rat source_record list" where
  "acme_data =
     [\<lparr>raw_key = ustr ''Acme Corp'', norm_key = ustr ''acmecorp'',
        current = NFloat 100, previous = NFloat 200\<rparr>]"

definition start_state :: "'f sheet \<Rightarrow> 'f etl_state" where
  "start_state ws = \<lparr>target_ws = ws, filled = 0, missing_keys = []\<rparr>"

definition run_example ::
  "rat sheet \<Rightarrow> rat sheet \<Rightarrow> rat sheet \<Rightarrow> rat \<Rightarrow> py_error + rat etl_result"
where
  "run_example src mp tgt factor =
     run_etl exact_rt (one_sheet (ustr ''Data'') src) (one_sheet (ustr ''Sheet1'') mp)
       (one_sheet (ustr ''Out'') tgt) (ustr ''Data'') (ustr ''Out'') factor"

text \<open>Source records whose only key has no letter.\<close>

definition blank_key_data :: "rat source_record list" where
  "blank_key_data =
     [\<lparr>raw_key = ustr ''2024'', norm_key = [], current = NFloat 1, previous = NFloat 2\<rparr>]"

section \<open>Properties of normalize\<close>

lemma re_sub_non_az_filter: "re_sub_non_az s = filter is_az s"
  by (induction s) simp_all

text \<open>
  Claim C3. \<open>normalize\<close> returns the empty text for \<open>None\<close>; for every other value it
  returns the value's text, put in lower case, without the characters that are not one of
  the letters a to z. So its result holds letters a to z only, and \<open>normalize("A-1 b")\<close>
  is \<open>"ab"\<close>.
\<close>

theorem normalize_spec:
  "normalize_key R CNone = []
   \<and> (v \<noteq> CNone \<longrightarrow> normalize_key R v = filter is_az (py_lower R (py_str R v)))
   \<and> (\<forall>c \<in> set (normalize_key R v). 97 \<le> c \<and> c \<le> 122)
   \<and> normalize_key R (CStr (ustr ''A-1 b'')) = ustr ''ab''"
proof -
  have a: "normalize_key R CNone = []"
    by (simp add: normalize_key_def)
  have b: "v \<noteq> CNone \<longrightarrow> normalize_key R v = filter is_az (py_lower R (py_str R v))"
    by (simp add: normalize_key_def re_sub_non_az_filter)
  have c: "\<forall>c \<in> set (normalize_key R v). 97 \<le> c \<and> c \<le> 122"
    by (simp add: normalize_key_def re_sub_non_az_filter is_az_def)
  have d: "normalize_key R (CStr (ustr ''A-1 b'')) = ustr ''ab''"
    by (simp add: normalize_key_def ustr_def py_lower_def lower_cp_def is_az_def)
  from a b c d show ?thesis by blast
qed

theorem normalize_spec_witness:
  "CStr (ustr ''Acme Corp. 42'') \<noteq> (CNone :: rat cell)
   \<and> normalize_key exact_rt (CStr (ustr ''Acme Corp. 42'')) = ustr ''acmecorp''
   \<and> normalize_key exact_rt (CInt (- 120)) = []"
  using normalize_spec [of exact_rt "CStr (ustr ''Acme Corp. 42'')"]
    normalize_spec [of exact_rt "CInt (- 120)"]
  by (simp add: ustr_def py_lower_def lower_cp_def is_az_def str_of_int_def str_of_nat.simps)

section \<open>Properties of to\_number\<close>









lemmas run_simps =
  to_number_def clean_text_def ustr_def py_strip_def is_space_def match_at_def
  number_body_def is_digit_def digit_val_def float_of_match_def dec_magnitude_def
  float_of_int_def







section \<open>Properties of the matching\<close>

lemma is_prefix_iff: "is_prefix a b \<longleftrightarrow> (\<exists>post. b = a @ post)"
  by (induction a b rule: is_prefix.induct) auto

lemma py_in_iff: "py_in a b \<longleftrightarrow> (\<exists>pre post. b = pre @ a @ post)"
proof (induction b)
  case Nil
  then show ?case by auto
next
  case (Cons y b)
  show ?case
  proof
    assume "py_in a (y # b)"
    then consider "is_prefix a (y # b)" | "py_in a b" by auto
    then show "\<exists>pre post. y # b = pre @ a @ post"
    proof cases
      case 1
      then obtain post where "y # b = [] @ a @ post" by (auto simp: is_prefix_iff)
      then show ?thesis by blast
    next
      case 2
      then obtain pre post where "b = pre @ a @ post" using Cons.IH by blast
      then have "y # b = (y # pre) @ a @ post" by simp
      then show ?thesis by blast
    qed
  next
    assume "\<exists>pre post. y # b = pre @ a @ post"
    then obtain pre post where e: "y # b = pre @ a @ post" by blast
    show "py_in a (y # b)"
    proof (cases pre)
      case Nil
      then have "is_prefix a (y # b)" using e by (auto simp: is_prefix_iff)
      then show ?thesis by simp
    next
      case (Cons p pre')
      then have "b = pre' @ a @ post" using e by simp
      then have "py_in a b" using Cons.IH by blast
      then show ?thesis by simp
    qed
  qed
qed

lemma py_in_Nil: "py_in [] b"
  by (induction b) auto

lemma find_match_None_iff:
  "find_match k srcs = None \<longleftrightarrow> (\<forall>s \<in> set srcs. \<not> key_matches k s)"
  by (induction srcs) auto

lemma find_match_first:
  "key_matches k m \<Longrightarrow> \<forall>s \<in> set pre. \<not> key_matches k s \<Longrightarrow>
   find_match k (pre @ m # rest) = Some m"
  by (induction pre) auto

lemma find_match_Some_iff:
  "find_match k srcs = Some m \<longleftrightarrow>
   (\<exists>i < length srcs. srcs ! i = m \<and> key_matches k m \<and> (\<forall>j < i. \<not> key_matches k (srcs ! j)))"
proof (induction srcs)
  case Nil
  then show ?case by simp
next
  case (Cons s srcs)
  show ?case
  proof (cases "key_matches k s")
    case True
    have "(\<exists>i < length (s # srcs). (s # srcs) ! i = m \<and> key_matches k m
             \<and> (\<forall>j < i. \<not> key_matches k ((s # srcs) ! j))) \<longleftrightarrow> s = m"
    proof
      assume "\<exists>i < length (s # srcs). (s # srcs) ! i = m \<and> key_matches k m
             \<and> (\<forall>j < i. \<not> key_matches k ((s # srcs) ! j))"
      then obtain i where i: "(s # srcs) ! i = m" "\<forall>j < i. \<not> key_matches k ((s # srcs) ! j)"
        by blast
      have "i = 0"
      proof (rule ccontr)
        assume "i \<noteq> 0"
        then have "\<not> key_matches k ((s # srcs) ! 0)" using i(2) by blast
        then show False using True by simp
      qed
      then show "s = m" using i(1) by simp
    next
      assume "s = m"
      then have "0 < length (s # srcs) \<and> (s # srcs) ! 0 = m \<and> key_matches k m
             \<and> (\<forall>j < 0. \<not> key_matches k ((s # srcs) ! j))"
        using True by simp
      then show "\<exists>i < length (s # srcs). (s # srcs) ! i = m \<and> key_matches k m
             \<and> (\<forall>j < i. \<not> key_matches k ((s # srcs) ! j))" by blast
    qed
    then show ?thesis using True by auto
  next
    case False
    have "(\<exists>i < length (s # srcs). (s # srcs) ! i = m \<and> key_matches k m
             \<and> (\<forall>j < i. \<not> key_matches k ((s # srcs) ! j)))
          \<longleftrightarrow> (\<exists>i < length srcs. srcs ! i = m \<and> key_matches k m
             \<and> (\<forall>j < i. \<not> key_matches k (srcs ! j)))" (is "?L \<longleftrightarrow> ?R")
    proof
      assume ?L
      then obtain i where i: "i < length (s # srcs)" "(s # srcs) ! i = m" "key_matches k m"
        "\<forall>j < i. \<not> key_matches k ((s # srcs) ! j)" by blast
      then obtain i' where i': "i = Suc i'" using False by (cases i) auto
      have "\<forall>j < i'. \<not> key_matches k (srcs ! j)"
      proof (intro allI impI)
        fix j assume "j < i'"
        then have "Suc j < i" using i' by simp
        then have "\<not> key_matches k ((s # srcs) ! Suc j)" using i(4) by blast
        then show "\<not> key_matches k (srcs ! j)" by simp
      qed
      then show ?R using i i' by auto
    next
      assume ?R
      then obtain i where i: "i < length srcs" "srcs ! i = m" "key_matches k m"
        "\<forall>j < i. \<not> key_matches k (srcs ! j)" by blast
      have "\<forall>j < Suc i. \<not> key_matches k ((s # srcs) ! j)"
      proof (intro allI impI)
        fix j assume "j < Suc i"
        then show "\<not> key_matches k ((s # srcs) ! j)"
          using False i(4) by (cases j) auto
      qed
      moreover have "Suc i < length (s # srcs)" "(s # srcs) ! Suc i = m" using i by auto
      ultimately show ?L using i(3) by blast
    qed
    then show ?thesis using False Cons.IH by simp
  qed
qed

text \<open>
  Claim C2. The match of a mapping key is the first source record, in the order the
  records were loaded, for which the normalized mapping key stands inside the record's
  normalized key or the record's normalized key stands inside the normalized mapping key.
  The test gives the same answer when the two keys change places, and the records after
  the first match play no part: there is no score and no choice among later candidates.
\<close>

theorem find_match_spec:
  "(find_match k srcs = Some m \<longleftrightarrow>
      (\<exists>i < length srcs. srcs ! i = m \<and> key_matches k m
         \<and> (\<forall>j < i. \<not> key_matches k (srcs ! j))))
   \<and> (find_match k srcs = None \<longleftrightarrow> (\<forall>s \<in> set srcs. \<not> key_matches k s))
   \<and> (key_matches k s \<longleftrightarrow>
        (\<exists>pre post. norm_key s = pre @ k @ post) \<or> (\<exists>pre post. k = pre @ norm_key s @ post))
   \<and> (key_matches k s \<longleftrightarrow> key_matches (norm_key s) (s\<lparr>norm_key := k\<rparr>))
   \<and> (key_matches k m \<and> (\<forall>s \<in> set pre. \<not> key_matches k s) \<longrightarrow>
        find_match k (pre @ m # rest) = Some m)"
proof -
  have a: "key_matches k s \<longleftrightarrow>
        (\<exists>pre post. norm_key s = pre @ k @ post) \<or> (\<exists>pre post. k = pre @ norm_key s @ post)"
    by (simp add: key_matches_def py_in_iff)
  have b: "key_matches k s \<longleftrightarrow> key_matches (norm_key s) (s\<lparr>norm_key := k\<rparr>)"
    by (auto simp add: key_matches_def)
  show ?thesis
    using a b find_match_Some_iff [of k srcs m] find_match_None_iff [of k srcs]
      find_match_first [of k m pre rest]
    by blast
qed


theorem find_match_spec_witness:
  "find_match (ustr ''acme'')
     [\<lparr>raw_key = ustr ''Globex'', norm_key = ustr ''globex'',
         current = NInt 0, previous = (NInt 0 :: rat num)\<rparr>,
      \<lparr>raw_key = ustr ''Acme Corp'', norm_key = ustr ''acmecorp'',
         current = NInt 0, previous = NInt 0\<rparr>,
      \<lparr>raw_key = ustr ''Acme'', norm_key = ustr ''acme'',
         current = NInt 0, previous = NInt 0\<rparr>]
   = Some \<lparr>raw_key = ustr ''Acme Corp'', norm_key = ustr ''acmecorp'',
         current = NInt 0, previous = NInt 0\<rparr>
   \<and> key_matches (ustr ''acmecorporation'')
        \<lparr>raw_key = ustr ''Acme Corp'', norm_key = ustr ''acmecorp'',
           current = NInt 0, previous = (NInt 0 :: rat num)\<rparr>"
  using find_match_spec
    [of "ustr ''acme''"
        "[\<lparr>raw_key = ustr ''Acme Corp'', norm_key = ustr ''acmecorp'',
            current = NInt 0, previous = (NInt 0 :: rat num)\<rparr>,
          \<lparr>raw_key = ustr ''Acme'', norm_key = ustr ''acme'',
            current = NInt 0, previous = NInt 0\<rparr>]"
        "\<lparr>raw_key = ustr ''Acme Corp'', norm_key = ustr ''acmecorp'',
            current = NInt 0, previous = (NInt 0 :: rat num)\<rparr>"
        "\<lparr>raw_key = ustr ''Acme Corp'', norm_key = ustr ''acmecorp'',
            current = NInt 0, previous = (NInt 0 :: rat num)\<rparr>"
        "[\<lparr>raw_key = ustr ''Globex'', norm_key = ustr ''globex'',
            current = NInt 0, previous = (NInt 0 :: rat num)\<rparr>]"
        "[\<lparr>raw_key = ustr ''Acme'', norm_key = ustr ''acme'',
            current = NInt 0, previous = (NInt 0 :: rat num)\<rparr>]"]
  by (simp add: key_matches_def ustr_def)

section \<open>Properties of write\_to\_cell\<close>

lemma write_ranges_landing: "write_ranges rs ws c v = set_value ws (landing rs c) v"
  by (induction rs) simp_all

lemma landing_outside: "\<forall>r \<in> set rs. \<not> in_range c r \<Longrightarrow> landing rs c = c"
  by (induction rs) simp_all

lemma landing_inside:
  "\<exists>r \<in> set rs. in_range c r \<Longrightarrow> \<exists>r \<in> set rs. in_range c r \<and> landing rs c = anchor r"
  by (induction rs) auto







lemma merged_set_value: "merged (set_value ws c v) = merged ws"
  by (simp add: set_value_def)


lemma write_to_cell_result:
  assumes "write_to_cell ws a v = Inr ws'"
  shows "\<exists>c. coord_of_address a = Inr c \<and> ws' = set_value ws (landing (merged ws) c) v"
  using assms by (cases "coord_of_address a") (simp_all add: write_to_cell_def write_ranges_landing)



section \<open>Properties of the mapping loop\<close>

lemma bind_err_Inr_iff: "bind_err x f = Inr y \<longleftrightarrow> (\<exists>a. x = Inr a \<and> f a = Inr y)"
  by (cases x) (simp_all add: bind_err_def)

lemma bind_err_Inl_iff:
  "bind_err x f = Inl e \<longleftrightarrow> (x = Inl e \<or> (\<exists>a. x = Inr a \<and> f a = Inl e))"
  by (cases x) (simp_all add: bind_err_def)


text \<open>One row of the mapping loop, by cases.\<close>

lemma process_row_skip:
  "\<not> row_present R mapping_ws row \<Longrightarrow> process_row R factor sd mapping_ws row st = Inr st"
  by (auto simp: process_row_def row_present_def Let_def)

lemma process_row_missing:
  "row_present R mapping_ws row \<Longrightarrow> row_match R sd mapping_ws row = None \<Longrightarrow>
   process_row R factor sd mapping_ws row st
     = Inr (st\<lparr>missing_keys := missing_keys st @ [cells mapping_ws (1, row)]\<rparr>)"
  by (simp add: process_row_def row_present_def row_match_def Let_def)

lemma process_row_matched:
  assumes "row_present R mapping_ws row" "row_match R sd mapping_ws row = Some m"
  shows "process_row R factor sd mapping_ws row st =
     bind_err (py_int R (cells mapping_ws (2, row))) (\<lambda>n.
     bind_err (scale_round R (current m) factor) (\<lambda>curr_value.
     bind_err (scale_round R (previous m) factor) (\<lambda>prev_value.
     bind_err (write_to_cell (target_ws st) (7, n) (CInt curr_value)) (\<lambda>ws1.
     bind_err (write_to_cell ws1 (10, n) (CInt prev_value)) (\<lambda>ws2.
       Inr (st\<lparr>target_ws := ws2, filled := filled st + 1\<rparr>))))))"
  using assms by (simp add: process_row_def row_present_def row_match_def Let_def)

lemma process_row_matched_Inr:
  assumes "row_present R mapping_ws row" "row_match R sd mapping_ws row = Some m"
    "process_row R factor sd mapping_ws row st = Inr st'"
  shows "\<exists>n cv pv ws1 ws2.
      py_int R (cells mapping_ws (2, row)) = Inr n
      \<and> scale_round R (current m) factor = Inr cv
      \<and> scale_round R (previous m) factor = Inr pv
      \<and> write_to_cell (target_ws st) (7, n) (CInt cv) = Inr ws1
      \<and> write_to_cell ws1 (10, n) (CInt pv) = Inr ws2
      \<and> st' = st\<lparr>target_ws := ws2, filled := filled st + 1\<rparr>"
  using assms(3) unfolding process_row_matched [OF assms(1,2)] bind_err_Inr_iff
  by (metis Inr_inject)


lemma process_row_counts:
  assumes "process_row R factor sd mapping_ws row st = Inr st'"
  shows "filled st' = filled st + length (matched_rows R sd mapping_ws [row])
       \<and> missing_keys st' = missing_keys st
            @ map (\<lambda>row. cells mapping_ws (1, row)) (unmatched_rows R sd mapping_ws [row])"
proof (cases "row_present R mapping_ws row")
  case False
  then show ?thesis
    using assms by (simp add: process_row_skip matched_rows_def unmatched_rows_def)
next
  case True
  show ?thesis
  proof (cases "row_match R sd mapping_ws row")
    case None
    then show ?thesis
      using assms True by (auto simp add: process_row_missing matched_rows_def unmatched_rows_def)
  next
    case (Some m)
    from process_row_matched_Inr [OF True Some assms] obtain ws2 where
      "st' = st\<lparr>target_ws := ws2, filled := filled st + 1\<rparr>" by blast
    then show ?thesis
      using True Some by (simp add: matched_rows_def unmatched_rows_def)
  qed
qed

lemma matched_rows_Cons:
  "matched_rows R sd mapping_ws (row # rows)
     = matched_rows R sd mapping_ws [row] @ matched_rows R sd mapping_ws rows"
  by (simp add: matched_rows_def)

lemma unmatched_rows_Cons:
  "unmatched_rows R sd mapping_ws (row # rows)
     = unmatched_rows R sd mapping_ws [row] @ unmatched_rows R sd mapping_ws rows"
  by (simp add: unmatched_rows_def)

lemma mapping_loop_counts:
  "mapping_loop R factor sd mapping_ws rows st = Inr st' \<Longrightarrow>
   filled st' = filled st + length (matched_rows R sd mapping_ws rows)
   \<and> missing_keys st' = missing_keys st
        @ map (\<lambda>row. cells mapping_ws (1, row)) (unmatched_rows R sd mapping_ws rows)"
proof (induction rows arbitrary: st)
  case Nil
  then show ?case by (simp add: matched_rows_def unmatched_rows_def)
next
  case (Cons row rows)
  from Cons.prems obtain st1 where
    s1: "process_row R factor sd mapping_ws row st = Inr st1"
    and s2: "mapping_loop R factor sd mapping_ws rows st1 = Inr st'"
    by (auto simp: bind_err_Inr_iff)
  note a = process_row_counts [OF s1] and b = Cons.IH [OF s2]
  have "filled st' = filled st + length (matched_rows R sd mapping_ws (row # rows))"
    using a b by (simp add: matched_rows_Cons [of R sd mapping_ws row rows])
  moreover have "missing_keys st' = missing_keys st
        @ map (\<lambda>row. cells mapping_ws (1, row)) (unmatched_rows R sd mapping_ws (row # rows))"
    using a b by (simp add: unmatched_rows_Cons [of R sd mapping_ws row rows])
  ultimately show ?case by simp
qed

lemma run_etl_Inr:
  assumes "run_etl R source_wb mapping_wb target_wb source_sheet target_sheet factor = Inr res"
  shows "\<exists>source_ws mapping_ws tws sd st w.
      get_sheet source_wb source_sheet = Inr source_ws
      \<and> get_sheet mapping_wb (ustr ''Sheet1'') = Inr mapping_ws
      \<and> get_sheet target_wb target_sheet = Inr tws
      \<and> load_source R source_ws = Inr sd
      \<and> mapping_loop R factor sd mapping_ws [2 ..< sheet_max_row mapping_ws + 1]
            \<lparr>target_ws = tws, filled = 0, missing_keys = []\<rparr> = Inr st
      \<and> res = \<lparr>out_wb = target_wb(target_sheet \<mapsto> target_ws st),
                 loaded = length sd, filled_count = filled st,
                 missing = missing_keys st, warning = w\<rparr>"
  using assms unfolding run_etl_def bind_err_Inr_iff by (metis Inr_inject)


lemma coord_of_address_Inr: "coord_of_address (col, n) = Inr c \<Longrightarrow> 1 \<le> n \<and> c = (col, nat n)"
  by (auto simp: coord_of_address_def split: if_splits)


lemma process_row_matched_writes:
  assumes "row_present R mapping_ws row" "row_match R sd mapping_ws row = Some m"
    "process_row R factor sd mapping_ws row st = Inr st'"
  shows "\<exists>n cv pv ws1.
      py_int R (cells mapping_ws (2, row)) = Inr n \<and> 1 \<le> n
      \<and> scale_round R (current m) factor = Inr cv
      \<and> scale_round R (previous m) factor = Inr pv
      \<and> write_to_cell (target_ws st) (7, n) (CInt cv) = Inr ws1
      \<and> write_to_cell ws1 (10, n) (CInt pv) = Inr (target_ws st')
      \<and> target_ws st' =
            set_value (set_value (target_ws st)
                (landing (merged (target_ws st)) (7, nat n)) (CInt cv))
              (landing (merged (target_ws st)) (10, nat n)) (CInt pv)
      \<and> filled st' = filled st + 1 \<and> missing_keys st' = missing_keys st"
proof -
  from process_row_matched_Inr [OF assms] obtain n cv pv ws1 ws2 where
    h: "py_int R (cells mapping_ws (2, row)) = Inr n"
       "scale_round R (current m) factor = Inr cv"
       "scale_round R (previous m) factor = Inr pv"
       "write_to_cell (target_ws st) (7, n) (CInt cv) = Inr ws1"
       "write_to_cell ws1 (10, n) (CInt pv) = Inr ws2"
       "st' = st\<lparr>target_ws := ws2, filled := filled st + 1\<rparr>"
    by blast
  from write_to_cell_result [OF h(4)] obtain c where
    c: "coord_of_address (7, n) = Inr c"
       "ws1 = set_value (target_ws st) (landing (merged (target_ws st)) c) (CInt cv)"
    by blast
  have c': "1 \<le> n" "c = (7, nat n)" using coord_of_address_Inr [OF c(1)] by simp_all
  from write_to_cell_result [OF h(5)] obtain d where
    d: "coord_of_address (10, n) = Inr d"
       "ws2 = set_value ws1 (landing (merged ws1) d) (CInt pv)"
    by blast
  have d': "d = (10, nat n)" using coord_of_address_Inr [OF d(1)] by simp
  have "merged ws1 = merged (target_ws st)" using c(2) by (simp add: merged_set_value)
  then have "ws2 = set_value (set_value (target_ws st)
                (landing (merged (target_ws st)) (7, nat n)) (CInt cv))
              (landing (merged (target_ws st)) (10, nat n)) (CInt pv)"
    using c(2) c'(2) d(2) d' by simp
  then show ?thesis using h c'(1) by auto
qed




lemmas sheet_simps =
  mk_sheet_def one_sheet_def get_sheet_def acme_source_def acme_mapping_def
  globex_mapping_def digits_mapping_def text_row_mapping_def zero_key_source_def
  empty_target_def merged_target_def acme_data_def start_state_def run_example_def

lemmas text_simps =
  normalize_key_def py_lower_def lower_cp_def is_az_def int_of_str_def int_unsigned_def
  str_of_int_def str_of_nat.simps key_matches_def

lemmas step_simps =
  run_etl_def load_source_def load_row_def process_row_def bind_err_def scale_round_def
  write_to_cell_def coord_of_address_def set_value_def in_range_def anchor_def
  exact_rt_def round_half_even_def Let_def

lemmas eval_simps = sheet_simps text_simps step_simps run_simps


section \<open>Rows without a match\<close>




section \<open>Keys that normalize to the empty text\<close>

lemma str_of_nat_digits: "\<forall>c \<in> set (str_of_nat n). 48 \<le> c \<and> c \<le> 57"
proof (induction n rule: str_of_nat.induct)
  case (1 n)
  show ?case
  proof (cases "n < 10")
    case True
    then show ?thesis by (simp add: str_of_nat.simps [of n])
  next
    case False
    have "n mod 10 < 10" by simp
    then have "48 + n mod 10 \<le> 57" by linarith
    then show ?thesis using False 1 by (simp add: str_of_nat.simps [of n])
  qed
qed

lemma str_of_int_chars: "\<forall>c \<in> set (str_of_int i). c < 65"
  using str_of_nat_digits [of "nat (- i)"] str_of_nat_digits [of "nat i"]
  by (auto simp: str_of_int_def)

lemma py_lower_no_letters: "\<forall>c \<in> set s. c < 65 \<Longrightarrow> py_lower R s = s"
  by (induction s) (simp_all add: py_lower_def lower_cp_def)

lemma normalize_key_int: "normalize_key R (CInt i) = []"
proof -
  have "py_lower R (str_of_int i) = str_of_int i"
    using str_of_int_chars by (rule py_lower_no_letters)
  moreover have "filter is_az (str_of_int i) = []"
    using str_of_int_chars [of i] by (auto simp: filter_empty_conv is_az_def)
  ultimately show ?thesis by (simp add: normalize_key_def re_sub_non_az_filter)
qed

lemma key_matches_empty_map_key: "key_matches [] src"
  by (simp add: key_matches_def py_in_Nil)

lemma key_matches_empty_norm_key: "norm_key src = [] \<Longrightarrow> key_matches k src"
  by (simp add: key_matches_def py_in_Nil)

lemma find_match_blank_source: "\<exists>s \<in> set srcs. norm_key s = [] \<Longrightarrow> find_match k srcs \<noteq> None"
  using key_matches_empty_norm_key by (auto simp: find_match_None_iff)

lemma unmatched_rows_none:
  "\<forall>row \<in> set rows. row_match R sd mapping_ws row \<noteq> None \<Longrightarrow>
   unmatched_rows R sd mapping_ws rows = []"
  by (simp add: unmatched_rows_def filter_empty_conv)

text \<open>
  Claim C9. A mapping key whose normalized form is empty, as that of every integer key is,
  selects the first record of a source index that is not empty, because the empty text
  stands inside every text; and a source record whose normalized key is empty is selected
  by every mapping key unless an earlier record is. So with such a record in the index no
  row is ever added to the missing keys, and a row with such a key is not added to them
  when the index is not empty.
\<close>

theorem empty_key_spec:
  "(normalize_key R map_key = [] \<longrightarrow>
      find_match (normalize_key R map_key) (src # srcs) = Some src)
   \<and> normalize_key R (CInt i) = []
   \<and> ((\<exists>s \<in> set sd. norm_key s = []) \<longrightarrow> find_match k sd \<noteq> None)
   \<and> ((\<exists>s \<in> set sd. norm_key s = [])
        \<and> mapping_loop R factor sd mapping_ws rows st = Inr st' \<longrightarrow>
        missing_keys st' = missing_keys st)
   \<and> (sd \<noteq> [] \<and> normalize_key R (cells mapping_ws (1, row)) = []
        \<and> process_row R factor sd mapping_ws row st = Inr st' \<longrightarrow>
        missing_keys st' = missing_keys st)"
proof -
  have p1: "normalize_key R map_key = [] \<longrightarrow>
      find_match (normalize_key R map_key) (src # srcs) = Some src"
    by (simp add: key_matches_empty_map_key)
  have p3: "(\<exists>s \<in> set sd. norm_key s = []) \<longrightarrow> find_match k sd \<noteq> None"
    using find_match_blank_source [of sd k] by blast
  have p4: "(\<exists>s \<in> set sd. norm_key s = [])
        \<and> mapping_loop R factor sd mapping_ws rows st = Inr st' \<longrightarrow>
        missing_keys st' = missing_keys st"
  proof
    assume a: "(\<exists>s \<in> set sd. norm_key s = [])
        \<and> mapping_loop R factor sd mapping_ws rows st = Inr st'"
    then have "\<forall>row \<in> set rows. row_match R sd mapping_ws row \<noteq> None"
      using find_match_blank_source [of sd] by (simp add: row_match_def)
    then have "unmatched_rows R sd mapping_ws rows = []"
      by (rule unmatched_rows_none)
    then show "missing_keys st' = missing_keys st"
      using a mapping_loop_counts [of R factor sd mapping_ws rows st st'] by simp
  qed
  have p5: "sd \<noteq> [] \<and> normalize_key R (cells mapping_ws (1, row)) = []
        \<and> process_row R factor sd mapping_ws row st = Inr st' \<longrightarrow>
        missing_keys st' = missing_keys st"
  proof
    assume a: "sd \<noteq> [] \<and> normalize_key R (cells mapping_ws (1, row)) = []
        \<and> process_row R factor sd mapping_ws row st = Inr st'"
    then obtain s ss where "sd = s # ss" by (cases sd) auto
    then have "row_match R sd mapping_ws row \<noteq> None"
      using a by (simp add: row_match_def key_matches_empty_map_key)
    then have "unmatched_rows R sd mapping_ws [row] = []"
      by (simp add: unmatched_rows_def)
    then show "missing_keys st' = missing_keys st"
      using a process_row_counts [of R factor sd mapping_ws row st st'] by simp
  qed
  show ?thesis using p1 normalize_key_int [of R i] p3 p4 p5 by blast
qed

theorem empty_key_spec_witness:
  "normalize_key exact_rt (cells digits_mapping (1, 2)) = []
   \<and> find_match (normalize_key exact_rt (cells digits_mapping (1, 2))) acme_data
       = Some (hd acme_data)
   \<and> find_match (ustr ''globex'') blank_key_data \<noteq> None
   \<and> (\<exists>st'. mapping_loop exact_rt 2 blank_key_data globex_mapping [2]
               (start_state empty_target) = Inr st'
         \<and> missing_keys st' = [] \<and> filled st' = 1)
   \<and> (\<exists>st'. process_row exact_rt 2 acme_data digits_mapping 2 (start_state empty_target)
               = Inr st'
         \<and> missing_keys st' = [] \<and> filled st' = 1)"
proof -
  have k: "cells digits_mapping (1, 2) = CInt 2024"
    by (simp add: sheet_simps)
  have b: "\<exists>s \<in> set blank_key_data. norm_key s = []" "acme_data \<noteq> []"
    "acme_data = hd acme_data # tl acme_data"
    by (simp_all add: blank_key_data_def acme_data_def)
  obtain st1 where s1: "mapping_loop exact_rt 2 blank_key_data globex_mapping [2]
               (start_state empty_target) = Inr st1" "filled st1 = 1"
    by (simp add: eval_simps blank_key_data_def)
  obtain st2 where s2: "process_row exact_rt 2 acme_data digits_mapping 2
               (start_state empty_target) = Inr st2" "filled st2 = 1"
    by (simp add: eval_simps)
  have z: "missing_keys (start_state empty_target) = []"
    by (simp add: start_state_def)
  note t1 = empty_key_spec [of exact_rt "cells digits_mapping (1, 2)" "hd acme_data"
      "tl acme_data" 2024 blank_key_data "ustr ''globex''" 2 globex_mapping "[2]"
      "start_state empty_target" st1 2]
  note t2 = empty_key_spec [of exact_rt "cells digits_mapping (1, 2)" "hd acme_data"
      "tl acme_data" 2024 acme_data "ustr ''globex''" 2 digits_mapping "[2]"
      "start_state empty_target" st2 2]
  have n: "normalize_key exact_rt (cells digits_mapping (1, 2)) = []"
    using t1 k by simp
  have f: "find_match (normalize_key exact_rt (cells digits_mapping (1, 2))) acme_data
       = Some (hd acme_data)"
    using t1 n b(3) by simp
  have g: "find_match (ustr ''globex'') blank_key_data \<noteq> None"
    using t1 b(1) by blast
  have m1: "missing_keys st1 = []" using t1 b(1) s1(1) z by simp
  have m2: "missing_keys st2 = []" using t2 b(2) n s2(1) z by simp
  show ?thesis using n f g s1 s2 m1 m2 by blast
qed

section \<open>What a run may change\<close>

lemma target_cells_Cons:
  "target_cells R sd mg mapping_ws (row # rows)
     = target_cells R sd mg mapping_ws [row] @ target_cells R sd mg mapping_ws rows"
  by (auto simp: target_cells_def matched_rows_def)

lemma row_targets_iff:
  "d \<in> set (row_targets R mg mapping_ws row) \<longleftrightarrow>
   (\<exists>n. py_int R (cells mapping_ws (2, row)) = Inr n
      \<and> (d = landing mg (7, nat n) \<or> d = landing mg (10, nat n)))"
  by (cases "py_int R (cells mapping_ws (2, row))") (auto simp: row_targets_def)

lemma target_cells_iff:
  "d \<in> set (target_cells R sd mg mapping_ws rows) \<longleftrightarrow>
   (\<exists>row \<in> set rows. row_present R mapping_ws row \<and> row_match R sd mapping_ws row \<noteq> None
      \<and> (\<exists>n. py_int R (cells mapping_ws (2, row)) = Inr n
            \<and> (d = landing mg (7, nat n) \<or> d = landing mg (10, nat n))))"
proof -
  have "d \<in> set (target_cells R sd mg mapping_ws rows) \<longleftrightarrow>
      (\<exists>row \<in> set rows. row_present R mapping_ws row \<and> row_match R sd mapping_ws row \<noteq> None
         \<and> d \<in> set (row_targets R mg mapping_ws row))"
    by (auto simp: target_cells_def matched_rows_def)
  then show ?thesis by (simp only: row_targets_iff)
qed

lemma process_row_frame:
  assumes "process_row R factor sd mapping_ws row st = Inr st'"
  shows "merged (target_ws st') = merged (target_ws st)
       \<and> (\<forall>d. cells (target_ws st') d \<noteq> cells (target_ws st) d \<longrightarrow>
              d \<in> set (target_cells R sd (merged (target_ws st)) mapping_ws [row]))"
proof (cases "row_present R mapping_ws row")
  case False
  then show ?thesis using assms by (simp add: process_row_skip)
next
  case True
  show ?thesis
  proof (cases "row_match R sd mapping_ws row")
    case None
    then show ?thesis using assms True by (auto simp add: process_row_missing)
  next
    case (Some m)
    let ?mg = "merged (target_ws st)"
    from process_row_matched_writes [OF True Some assms] obtain n cv pv where
      h: "py_int R (cells mapping_ws (2, row)) = Inr n"
         "target_ws st' = set_value (set_value (target_ws st)
                (landing ?mg (7, nat n)) (CInt cv)) (landing ?mg (10, nat n)) (CInt pv)"
      by blast
    have mg: "merged (target_ws st') = ?mg"
      using h(2) by (simp add: merged_set_value)
    have "\<forall>d. cells (target_ws st') d \<noteq> cells (target_ws st) d \<longrightarrow>
              d = landing ?mg (7, nat n) \<or> d = landing ?mg (10, nat n)"
      using h(2) by (simp add: set_value_def)
    moreover have "\<And>d. d = landing ?mg (7, nat n) \<or> d = landing ?mg (10, nat n) \<Longrightarrow>
              d \<in> set (target_cells R sd ?mg mapping_ws [row])"
    proof -
      fix d assume "d = landing ?mg (7, nat n) \<or> d = landing ?mg (10, nat n)"
      then have "\<exists>r \<in> set [row]. row_present R mapping_ws r \<and> row_match R sd mapping_ws r \<noteq> None
          \<and> (\<exists>k. py_int R (cells mapping_ws (2, r)) = Inr k
                \<and> (d = landing ?mg (7, nat k) \<or> d = landing ?mg (10, nat k)))"
        using h(1) True Some by auto
      then show "d \<in> set (target_cells R sd ?mg mapping_ws [row])"
        by (simp only: target_cells_iff)
    qed
    ultimately have "\<forall>d. cells (target_ws st') d \<noteq> cells (target_ws st) d \<longrightarrow>
              d \<in> set (target_cells R sd ?mg mapping_ws [row])"
      by blast
    then show ?thesis using mg by simp
  qed
qed

lemma mapping_loop_frame:
  "mapping_loop R factor sd mapping_ws rows st = Inr st' \<Longrightarrow>
   merged (target_ws st') = merged (target_ws st)
   \<and> (\<forall>d. cells (target_ws st') d \<noteq> cells (target_ws st) d \<longrightarrow>
          d \<in> set (target_cells R sd (merged (target_ws st)) mapping_ws rows))"
proof (induction rows arbitrary: st)
  case Nil
  then show ?case by simp
next
  case (Cons row rows)
  from Cons.prems obtain st1 where
    s1: "process_row R factor sd mapping_ws row st = Inr st1"
    and s2: "mapping_loop R factor sd mapping_ws rows st1 = Inr st'"
    by (auto simp: bind_err_Inr_iff)
  note a = process_row_frame [OF s1] and b = Cons.IH [OF s2]
  have mg: "merged (target_ws st') = merged (target_ws st)" using a b by simp
  have "\<forall>d. cells (target_ws st') d \<noteq> cells (target_ws st) d \<longrightarrow>
          d \<in> set (target_cells R sd (merged (target_ws st)) mapping_ws (row # rows))"
  proof (intro allI impI)
    fix d assume "cells (target_ws st') d \<noteq> cells (target_ws st) d"
    then consider "cells (target_ws st') d \<noteq> cells (target_ws st1) d"
      | "cells (target_ws st1) d \<noteq> cells (target_ws st) d" by metis
    then have "d \<in> set (target_cells R sd (merged (target_ws st)) mapping_ws [row])
        \<or> d \<in> set (target_cells R sd (merged (target_ws st)) mapping_ws rows)"
    proof cases
      case 1
      have m1: "merged (target_ws st1) = merged (target_ws st)" using a by blast
      show ?thesis using b [unfolded m1] 1 by blast
    next
      case 2
      then show ?thesis using a by blast
    qed
    then show "d \<in> set (target_cells R sd (merged (target_ws st)) mapping_ws (row # rows))"
      by (auto simp: target_cells_Cons [of R sd _ mapping_ws row rows])
  qed
  then show ?case using mg by simp
qed

text \<open>
  Claim C10. In a run that returns, every sheet of the target workbook other than the
  selected one is as it was, the merged ranges of the selected sheet are as they were, and
  a cell of the selected sheet whose value differs is one of the cells that G\<open>n\<close> and
  J\<open>n\<close> land on, for a mapping row that is present and matched and whose column B parses
  to \<open>n\<close>: the anchor of the merged range that holds the address, or the address
  itself when no merged range holds it.
\<close>

theorem etl_frame_spec:
  "(run_etl R source_wb mapping_wb target_wb source_sheet target_sheet factor = Inr res \<longrightarrow>
     (\<exists>source_ws mapping_ws tws tws' sd.
        get_sheet source_wb source_sheet = Inr source_ws
        \<and> get_sheet mapping_wb (ustr ''Sheet1'') = Inr mapping_ws
        \<and> load_source R source_ws = Inr sd
        \<and> target_wb target_sheet = Some tws
        \<and> out_wb res target_sheet = Some tws'
        \<and> (\<forall>name. name \<noteq> target_sheet \<longrightarrow> out_wb res name = target_wb name)
        \<and> merged tws' = merged tws
        \<and> (\<forall>d. cells tws' d \<noteq> cells tws d \<longrightarrow>
              d \<in> set (target_cells R sd (merged tws) mapping_ws
                         [2 ..< sheet_max_row mapping_ws + 1]))))
   \<and> (d \<in> set (target_cells R sd mg mapping_ws rows) \<longleftrightarrow>
        (\<exists>row \<in> set rows. row_present R mapping_ws row \<and> row_match R sd mapping_ws row \<noteq> None
           \<and> (\<exists>n. py_int R (cells mapping_ws (2, row)) = Inr n
                 \<and> (d = landing mg (7, nat n) \<or> d = landing mg (10, nat n)))))
   \<and> ((\<exists>r \<in> set mg. in_range c r) \<longrightarrow> (\<exists>r \<in> set mg. in_range c r \<and> landing mg c = anchor r))
   \<and> ((\<forall>r \<in> set mg. \<not> in_range c r) \<longrightarrow> landing mg c = c)"
proof -
  have p1: "run_etl R source_wb mapping_wb target_wb source_sheet target_sheet factor = Inr res \<longrightarrow>
     (\<exists>source_ws mapping_ws tws tws' sd.
        get_sheet source_wb source_sheet = Inr source_ws
        \<and> get_sheet mapping_wb (ustr ''Sheet1'') = Inr mapping_ws
        \<and> load_source R source_ws = Inr sd
        \<and> target_wb target_sheet = Some tws
        \<and> out_wb res target_sheet = Some tws'
        \<and> (\<forall>name. name \<noteq> target_sheet \<longrightarrow> out_wb res name = target_wb name)
        \<and> merged tws' = merged tws
        \<and> (\<forall>d. cells tws' d \<noteq> cells tws d \<longrightarrow>
              d \<in> set (target_cells R sd (merged tws) mapping_ws
                         [2 ..< sheet_max_row mapping_ws + 1])))"
  proof
    assume "run_etl R source_wb mapping_wb target_wb source_sheet target_sheet factor = Inr res"
    from run_etl_Inr [OF this] obtain source_ws mapping_ws tws data stf w where
      r: "get_sheet source_wb source_sheet = Inr source_ws"
         "get_sheet mapping_wb (ustr ''Sheet1'') = Inr mapping_ws"
         "get_sheet target_wb target_sheet = Inr tws"
         "load_source R source_ws = Inr data"
         "mapping_loop R factor data mapping_ws [2 ..< sheet_max_row mapping_ws + 1]
            \<lparr>target_ws = tws, filled = 0, missing_keys = []\<rparr> = Inr stf"
         "res = \<lparr>out_wb = target_wb(target_sheet \<mapsto> target_ws stf),
                 loaded = length data, filled_count = filled stf,
                 missing = missing_keys stf, warning = w\<rparr>"
      by blast
    have t: "target_wb target_sheet = Some tws"
      using r(3) by (simp add: get_sheet_def split: option.splits)
    have o: "out_wb res target_sheet = Some (target_ws stf)"
      "\<forall>name. name \<noteq> target_sheet \<longrightarrow> out_wb res name = target_wb name"
      using r(6) by simp_all
    from mapping_loop_frame [OF r(5)] have
      f: "merged (target_ws stf) = merged tws"
         "\<forall>d. cells (target_ws stf) d \<noteq> cells tws d \<longrightarrow>
              d \<in> set (target_cells R data (merged tws) mapping_ws
                         [2 ..< sheet_max_row mapping_ws + 1])"
      by simp_all
    show "\<exists>source_ws mapping_ws tws tws' sd.
        get_sheet source_wb source_sheet = Inr source_ws
        \<and> get_sheet mapping_wb (ustr ''Sheet1'') = Inr mapping_ws
        \<and> load_source R source_ws = Inr sd
        \<and> target_wb target_sheet = Some tws
        \<and> out_wb res target_sheet = Some tws'
        \<and> (\<forall>name. name \<noteq> target_sheet \<longrightarrow> out_wb res name = target_wb name)
        \<and> merged tws' = merged tws
        \<and> (\<forall>d. cells tws' d \<noteq> cells tws d \<longrightarrow>
              d \<in> set (target_cells R sd (merged tws) mapping_ws
                         [2 ..< sheet_max_row mapping_ws + 1]))"
      using r(1,2,4) t o f by blast
  qed
  show ?thesis
    using p1 target_cells_iff [of d R sd mg mapping_ws rows]
      landing_inside [of mg c] landing_outside [of mg c]
    by blast
qed

theorem etl_frame_spec_witness:
  "\<exists>res tws'. run_example acme_source acme_mapping merged_target 2 = Inr res
     \<and> out_wb res (ustr ''Out'') = Some tws'
     \<and> out_wb res (ustr ''Other'') = None
     \<and> target_cells exact_rt acme_data (merged merged_target) acme_mapping [2] = [(7, 5), (7, 5)]
     \<and> in_range (10, 5) (hd (merged merged_target))
     \<and> cells tws' (7, 5) = CInt 400
     \<and> (\<forall>d. d = (7, 5) \<or> cells tws' d = CNone)"
proof -
  obtain res where r: "run_example acme_source acme_mapping merged_target 2 = Inr res"
    by (simp add: eval_simps)
  have l: "load_source exact_rt acme_source = Inr acme_data"
    by (simp add: eval_simps)
  have tc: "target_cells exact_rt acme_data (merged merged_target) acme_mapping [2]
      = [(7, 5), (7, 5)]"
    by (simp add: target_cells_def matched_rows_def row_targets_def row_present_def
        row_match_def eval_simps)
  have g: "get_sheet (one_sheet (ustr ''Data'') acme_source) (ustr ''Data'') = Inr acme_source"
    "get_sheet (one_sheet (ustr ''Sheet1'') acme_mapping) (ustr ''Sheet1'') = Inr acme_mapping"
    "one_sheet (ustr ''Out'') merged_target (ustr ''Out'') = Some merged_target"
    "one_sheet (ustr ''Out'') merged_target (ustr ''Other'') = None"
    "[2 ..< sheet_max_row acme_mapping + 1] = [2]"
    "\<forall>d. cells merged_target d = CNone"
    "in_range (10, 5) (hd (merged merged_target))"
    by (simp_all add: sheet_simps ustr_def in_range_def)
  have v: "\<exists>tws'. out_wb res (ustr ''Out'') = Some tws' \<and> cells tws' (7, 5) = CInt 400"
    using r by (auto simp add: eval_simps)
  have r': "run_etl exact_rt (one_sheet (ustr ''Data'') acme_source)
      (one_sheet (ustr ''Sheet1'') acme_mapping) (one_sheet (ustr ''Out'') merged_target)
      (ustr ''Data'') (ustr ''Out'') 2 = Inr res"
    using r by (simp only: run_example_def)
  from etl_frame_spec [of exact_rt "one_sheet (ustr ''Data'') acme_source"
      "one_sheet (ustr ''Sheet1'') acme_mapping" "one_sheet (ustr ''Out'') merged_target"
      "ustr ''Data''" "ustr ''Out''" 2 res, THEN conjunct1, rule_format, OF r']
  obtain source_ws mapping_ws tws tws' sd where
    e: "get_sheet (one_sheet (ustr ''Data'') acme_source) (ustr ''Data'') = Inr source_ws"
       "get_sheet (one_sheet (ustr ''Sheet1'') acme_mapping) (ustr ''Sheet1'') = Inr mapping_ws"
       "load_source exact_rt source_ws = Inr sd"
       "one_sheet (ustr ''Out'') merged_target (ustr ''Out'') = Some tws"
    and f1: "out_wb res (ustr ''Out'') = Some tws'"
    and f2: "\<forall>name. name \<noteq> ustr ''Out'' \<longrightarrow>
            out_wb res name = one_sheet (ustr ''Out'') merged_target name"
    and f3: "\<forall>d. cells tws' d \<noteq> cells tws d \<longrightarrow>
            d \<in> set (target_cells exact_rt sd (merged tws) mapping_ws
                       [2 ..< sheet_max_row mapping_ws + 1])"
    by blast
  have i: "source_ws = acme_source" "mapping_ws = acme_mapping" "tws = merged_target"
    using e(1,2,4) g(1,2,3) by simp_all
  have i2: "sd = acme_data" using e(3) i(1) l by simp
  have f: "out_wb res (ustr ''Out'') = Some tws'"
       "\<forall>name. name \<noteq> ustr ''Out'' \<longrightarrow> out_wb res name = one_sheet (ustr ''Out'') merged_target name"
       "\<forall>d. cells tws' d \<noteq> cells merged_target d \<longrightarrow>
            d \<in> set (target_cells exact_rt acme_data (merged merged_target) acme_mapping [2])"
    using f1 f2 f3 i i2 g(5) by simp_all
  have o: "out_wb res (ustr ''Other'') = None"
    using f(2) g(4) by (simp add: ustr_def)
  have u: "\<forall>d. d = (7, 5) \<or> cells tws' d = CNone"
    using f(3) tc g(6) by auto
  have "cells tws' (7, 5) = CInt 400" using v f(1) by auto
  then show ?thesis using r f(1) o tc g(7) u by blast
qed

section \<open>Properties of loading the source\<close>










section \<open>Errors in a row\<close>









end
